theory Spec2Isabelle
  imports Main "HOL-Library.Sublist"
begin

section \<open>Venue directory: data model\<close>

text \<open>
  The embedding follows the route handlers of \<^verbatim>\<open>routes/fields.js\<close> (the second
  document of \<^verbatim>\<open>src/server.js\<close>).  A table is the list of its rows in physical
  order, a nullable column is an \<open>option\<close>, a \<^verbatim>\<open>SERIAL\<close> column is fed by a
  counter kept in the state, and \<^verbatim>\<open>CURRENT_TIMESTAMP\<close> is an argument \<open>now\<close> of
  the handler that inserts.  Identifiers and timestamps are natural numbers.  The
  file system is the list of the paths that exist.

  An id column is an \<^verbatim>\<open>INTEGER\<close>: a stored id is at most \<open>2147483647\<close>, and
  the data store refuses a query whose id parameter is larger, which the
  handler's \<^verbatim>\<open>catch\<close> answers with status 500.  The two delete handlers carry
  this branch at each query that receives an id of the request (\<open>pg_integer\<close>).
  The other handlers are modelled for path ids within that range; beyond it
  their first query that receives the path id fails before any change of state.
  A path segment that is not a number is outside the type of a path id.

  Only the columns that a modelled handler reads or writes are kept; the columns
  \<^verbatim>\<open>description\<close>, \<^verbatim>\<open>latitude\<close>, \<^verbatim>\<open>longitude\<close>, the amenity flags,
  \<^verbatim>\<open>opening_hours\<close>, \<^verbatim>\<open>prices\<close> and \<^verbatim>\<open>updated_at\<close> of a venue are carried
  along by \<^verbatim>\<open>f.*\<close> and never inspected.

  Apart from that, the handlers are modelled on runs in which the data store and
  the file system answer; the \<^verbatim>\<open>catch\<close> branch of a handler (status 500) is
  modelled where the request or the code itself can provoke it (an id beyond the
  range of the column, a relation that does not exist).
\<close>

record user =
  u_id :: nat
  username :: string
  is_admin :: "bool option"

record venue =
  v_id :: nat
  v_name :: string
  v_address :: "string option"
  v_city :: "string option"
  v_province :: "string option"
  v_region :: "string option"
  v_sport_type :: string
  v_surface_type :: "string option"
  v_venue_type :: "string option"
  v_added_by_user_id :: "nat option"
  v_created_at :: nat

text \<open>
  The relation \<^verbatim>\<open>football_fields\<close> is read by the delete handler only, through
  the columns \<^verbatim>\<open>id\<close> and \<^verbatim>\<open>added_by_user_id\<close>; no statement of
  \<^verbatim>\<open>src/\<close> creates it, so the state holds it as an \<open>option\<close>: \<open>None\<close> when
  the relation does not exist.
\<close>

record legacy_field =
  ff_id :: nat
  ff_added_by_user_id :: "nat option"

record image =
  i_id :: nat
  field_id :: nat
  image_url :: string
  uploaded_by :: nat
  uploaded_at :: nat
  is_primary :: bool

record report =
  r_id :: nat
  venue_id :: nat
  reported_by_user_id :: nat
  report_type :: string
  description :: "string option"
  status :: string
  r_created_at :: nat

record db =
  users :: "user list"
  sports_venues :: "venue list"
  football_fields :: "legacy_field list option"
  field_images :: "image list"
  venue_reports :: "report list"
  next_image_id :: nat
  next_report_id :: nat
  files :: "string list"

text \<open>
  A handler answers with a status and a JSON body.  An answer that is not a
  success is an \<open>error\<close>: \<open>Err status message\<close> for \<^verbatim>\<open>{ message }\<close> and
  \<open>Invalid msgs\<close> for the status 400 answer \<^verbatim>\<open>{ errors }\<close> of the validator.
\<close>

datatype error = Err nat string | Invalid "string list"

text \<open>The values that the data store takes as a parameter of type \<^verbatim>\<open>INTEGER\<close>.\<close>

definition pg_integer :: "nat \<Rightarrow> bool" where
  "pg_integer n = (n \<le> 2147483647)"

section \<open>Image manager\<close>

text \<open>\<^verbatim>\<open>UPDATE field_images SET is_primary = b WHERE P\<close>.\<close>

definition update_primary :: "(image \<Rightarrow> bool) \<Rightarrow> bool \<Rightarrow> image list \<Rightarrow> image list" where
  "update_primary P b imgs = map (\<lambda>i. if P i then i\<lparr>is_primary := b\<rparr> else i) imgs"

text \<open>
  \<^verbatim>\<open>router.put('/:id/image/:imageId/primary')\<close>.  The path parameter
  \<^verbatim>\<open>:id\<close> is \<open>fieldId\<close> throughout.  The handler reads the caller
  (\<^verbatim>\<open>req.user.userId\<close>) into a variable and does not use it.
\<close>

definition set_primary :: "db \<Rightarrow> nat \<Rightarrow> nat \<Rightarrow> nat \<Rightarrow> (error + string) \<times> db" where
  "set_primary d userId fieldId imageId =
     (let imageResult = filter (\<lambda>i. i_id i = imageId \<and> field_id i = fieldId) (field_images d)
      in if imageResult = [] then (Inl (Err 404 ''Image not found''), d)
         else
           let imgs1 = update_primary (\<lambda>i. field_id i = fieldId) False (field_images d);
               imgs2 = update_primary (\<lambda>i. i_id i = imageId) True imgs1
           in (Inr ''Primary image updated successfully'', d\<lparr>field_images := imgs2\<rparr>))"

text \<open>
  \<^verbatim>\<open>router.post('/:id/image')\<close>, after the upload middleware: \<open>file\<close> is the
  name under which the middleware stored the upload (\<^verbatim>\<open>req.file.filename\<close>),
  \<open>None\<close> when the request carried no file.  The middleware has written the file
  before the handler runs, whatever the handler answers.  The count comes back
  from the data store as a string and is compared with \<^verbatim>\<open>'0'\<close>.
\<close>

definition upload_image :: "db \<Rightarrow> nat \<Rightarrow> nat \<Rightarrow> nat \<Rightarrow> string option \<Rightarrow> (error + string) \<times> db" where
  "upload_image d now userId fieldId file =
     (case file of
        None \<Rightarrow> (Inl (Err 400 ''No image file provided''), d)
      | Some filename \<Rightarrow>
          let d0 = d\<lparr>files := files d @ [''uploads/field-images/'' @ filename]\<rparr>;
              fieldResult = filter (\<lambda>v. v_id v = fieldId) (sports_venues d0)
          in if fieldResult = [] then (Inl (Err 404 ''Venue not found''), d0)
             else
               let imageUrl = ''/uploads/field-images/'' @ filename;
                   existingImages = length (filter (\<lambda>i. field_id i = fieldId) (field_images d0));
                   isPrimary = (existingImages = 0);
                   row = \<lparr>i_id = next_image_id d0, field_id = fieldId, image_url = imageUrl,
                          uploaded_by = userId, uploaded_at = now, is_primary = isPrimary\<rparr>
               in (Inr imageUrl,
                   d0\<lparr>field_images := field_images d0 @ [row],
                      next_image_id := Suc (next_image_id d0)\<rparr>))"

text \<open>
  \<^verbatim>\<open>String.prototype.replace\<close> with a string pattern: the first occurrence of
  \<open>pat\<close> is replaced.
\<close>

fun replace_first :: "string \<Rightarrow> string \<Rightarrow> string \<Rightarrow> string" where
  "replace_first pat rep [] = (if pat = [] then rep else [])"
| "replace_first pat rep (c # cs) =
     (if prefix pat (c # cs) then rep @ drop (length pat) (c # cs)
      else c # replace_first pat rep cs)"

text \<open>
  \<^verbatim>\<open>if (fs.existsSync(p)) fs.unlinkSync(p)\<close> and
  \<^verbatim>\<open>DELETE FROM field_images WHERE id = $1\<close>.
\<close>

definition unlink_if_exists :: "string \<Rightarrow> string list \<Rightarrow> string list" where
  "unlink_if_exists p fs = (if p \<in> set fs then removeAll p fs else fs)"

definition delete_image_row :: "nat \<Rightarrow> image list \<Rightarrow> image list" where
  "delete_image_row imageId imgs = filter (\<lambda>i. i_id i \<noteq> imageId) imgs"

text \<open>
  \<^verbatim>\<open>router.delete('/:id/image/:imageId')\<close>.  The image is looked up by
  \<open>imageId\<close> alone; \<open>fieldId\<close> is used once, in the query that chooses the next
  primary image, which runs only when the deleted image was primary and after
  the file and the row are gone.  \<^verbatim>\<open>ORDER BY uploaded_at ASC LIMIT 1\<close> is the
  head of a stable sort of the rows in table order (the data store promises no
  order among equal timestamps; the statements below hold for any choice among
  them).
\<close>

definition delete_image :: "db \<Rightarrow> nat \<Rightarrow> nat \<Rightarrow> nat \<Rightarrow> (error + string) \<times> db" where
  "delete_image d userId fieldId imageId =
     (if \<not> pg_integer imageId then (Inl (Err 500 ''Server error''), d)
      else
        (case filter (\<lambda>i. i_id i = imageId) (field_images d) of
           [] \<Rightarrow> (Inl (Err 404 ''Image not found''), d)
         | img # _ \<Rightarrow>
             if uploaded_by img \<noteq> userId
             then (Inl (Err 403 ''You can only delete images you uploaded''), d)
             else
               let imagePath = replace_first ''/uploads/'' ''uploads/'' (image_url img);
                   files1 = unlink_if_exists imagePath (files d);
                   imgs1 = delete_image_row imageId (field_images d);
                   d1 = d\<lparr>field_images := imgs1, files := files1\<rparr>
               in if is_primary img then
                    if \<not> pg_integer fieldId then (Inl (Err 500 ''Server error''), d1)
                    else
                      (case sort_key uploaded_at (filter (\<lambda>i. field_id i = fieldId) imgs1) of
                         [] \<Rightarrow> (Inr ''Image deleted successfully'', d1)
                       | nextPrimary # _ \<Rightarrow>
                           (Inr ''Image deleted successfully'',
                            d1\<lparr>field_images :=
                                 update_primary (\<lambda>i. i_id i = i_id nextPrimary) True imgs1\<rparr>))
                  else (Inr ''Image deleted successfully'', d1)))"

text \<open>
  The primary-image invariant of one venue: no primary image when the venue has
  no image, exactly one when it has some.  \<open>flags\<close> lists, for every image,
  its id, its venue and whether it is primary.
\<close>

definition venue_images :: "db \<Rightarrow> nat \<Rightarrow> image list" where
  "venue_images d v = filter (\<lambda>i. field_id i = v) (field_images d)"

definition primary_invariant :: "db \<Rightarrow> nat \<Rightarrow> bool" where
  "primary_invariant d v =
     (length (filter is_primary (venue_images d v)) = (if venue_images d v = [] then 0 else 1))"

definition flags :: "db \<Rightarrow> (nat \<times> nat \<times> bool) list" where
  "flags d = map (\<lambda>i. (i_id i, field_id i, is_primary i)) (field_images d)"

text \<open>
  The three operations on images as requests, and a run of them.  A removal
  \<open>path_matches\<close> when the venue id of its path is in the range of the column
  and is the venue of the image it names.  \<open>images_ok\<close> collects what the image table guarantees between
  requests: ids are unique and below the counter, and every venue satisfies the
  primary-image invariant (\<open>one_primary\<close> is the invariant on the bare table).
\<close>

datatype image_op = Attach nat nat nat string | Remove nat nat nat | SetPrimary nat nat nat

fun apply_op :: "db \<Rightarrow> image_op \<Rightarrow> db" where
  "apply_op d (Attach now userId fieldId filename) =
     snd (upload_image d now userId fieldId (Some filename))"
| "apply_op d (Remove userId fieldId imageId) = snd (delete_image d userId fieldId imageId)"
| "apply_op d (SetPrimary userId fieldId imageId) = snd (set_primary d userId fieldId imageId)"

fun path_matches :: "db \<Rightarrow> image_op \<Rightarrow> bool" where
  "path_matches d (Remove userId fieldId imageId) =
     (pg_integer fieldId \<and>
      list_all (\<lambda>i. i_id i = imageId \<longrightarrow> field_id i = fieldId) (field_images d))"
| "path_matches d _ = True"

fun paths_match :: "db \<Rightarrow> image_op list \<Rightarrow> bool" where
  "paths_match d [] = True"
| "paths_match d (x # xs) = (path_matches d x \<and> paths_match (apply_op d x) xs)"

definition images_ok :: "db \<Rightarrow> bool" where
  "images_ok d =
     (distinct (map i_id (field_images d)) \<and>
      list_all (\<lambda>i. i_id i < next_image_id d) (field_images d) \<and>
      (\<forall>v. primary_invariant d v))"

definition one_primary :: "image list \<Rightarrow> nat \<Rightarrow> bool" where
  "one_primary imgs v =
     (length (filter (\<lambda>i. field_id i = v \<and> is_primary i) imgs) =
        (if filter (\<lambda>i. field_id i = v) imgs = [] then 0 else 1))"

section \<open>Venue repository\<close>

text \<open>
  \<^verbatim>\<open>SELECT is_admin FROM users WHERE id = $1\<close> followed by
  \<^verbatim>\<open>rows[0]?.is_admin || false\<close>.
\<close>

definition caller_is_admin :: "db \<Rightarrow> nat \<Rightarrow> bool" where
  "caller_is_admin d userId =
     (case filter (\<lambda>u. u_id u = userId) (users d) of
        [] \<Rightarrow> False
      | u # _ \<Rightarrow> (case is_admin u of None \<Rightarrow> False | Some b \<Rightarrow> b))"

datatype table_name = Sports_venues | Football_fields

text \<open>
  The two branches of the \<^verbatim>\<open>UNION ALL\<close> query that looks the venue up in both
  relations; \<open>own\<close> is the condition on \<^verbatim>\<open>added_by_user_id\<close> (absent for an
  admin).  The rows of the first branch come first.
\<close>

definition venue_check ::
  "(nat option \<Rightarrow> bool) \<Rightarrow> nat \<Rightarrow> venue list \<Rightarrow> legacy_field list \<Rightarrow> (table_name \<times> nat option) list" where
  "venue_check own fieldId vs ffs =
     map (\<lambda>v. (Sports_venues, v_added_by_user_id v))
         (filter (\<lambda>v. v_id v = fieldId \<and> own (v_added_by_user_id v)) vs) @
     map (\<lambda>f. (Football_fields, ff_added_by_user_id f))
         (filter (\<lambda>f. ff_id f = fieldId \<and> own (ff_added_by_user_id f)) ffs)"

text \<open>
  \<^verbatim>\<open>DELETE FROM ${tableName} WHERE id = $1 [AND added_by_user_id = $2] RETURNING *\<close>:
  the number of rows deleted and the new state.  Deleting a row of
  \<^verbatim>\<open>sports_venues\<close> deletes the images and reports that reference it
  (\<^verbatim>\<open>ON DELETE CASCADE\<close>).
\<close>

definition delete_rows :: "table_name \<Rightarrow> (nat option \<Rightarrow> bool) \<Rightarrow> nat \<Rightarrow> db \<Rightarrow> nat \<times> db" where
  "delete_rows tableName own fieldId d =
     (case tableName of
        Sports_venues \<Rightarrow>
          let hit = (\<lambda>v. v_id v = fieldId \<and> own (v_added_by_user_id v));
              gone = filter hit (sports_venues d)
          in if gone = [] then (0, d)
             else (length gone,
                   d\<lparr>sports_venues := filter (\<lambda>v. \<not> hit v) (sports_venues d),
                     field_images := filter (\<lambda>i. field_id i \<noteq> fieldId) (field_images d),
                     venue_reports := filter (\<lambda>r. venue_id r \<noteq> fieldId) (venue_reports d)\<rparr>)
      | Football_fields \<Rightarrow>
          (case football_fields d of
             None \<Rightarrow> (0, d)
           | Some ffs \<Rightarrow>
               let hit = (\<lambda>f. ff_id f = fieldId \<and> own (ff_added_by_user_id f))
               in (length (filter hit ffs),
                   d\<lparr>football_fields := Some (filter (\<lambda>f. \<not> hit f) ffs)\<rparr>)))"

text \<open>
  \<^verbatim>\<open>router.delete('/:id')\<close>.  \<open>resolve\<close> is
  \<^verbatim>\<open>path.join(__dirname, '..', image_url)\<close>.  The first query takes the
  caller's id and the second the path id; both come before any change of state.
  The statements of the admin branch are not in a transaction: what was deleted
  stays deleted when a later query fails.
\<close>

definition delete_venue :: "(string \<Rightarrow> string) \<Rightarrow> db \<Rightarrow> nat \<Rightarrow> nat \<Rightarrow> (error + string) \<times> db" where
  "delete_venue resolve d userId fieldId =
     (if \<not> pg_integer userId then (Inl (Err 500 ''Server error''), d)
      else
        let isAdmin = caller_is_admin d userId
        in if \<not> pg_integer fieldId then (Inl (Err 500 ''Server error''), d)
           else
             let fieldExists = filter (\<lambda>v. v_id v = fieldId) (sports_venues d)
             in if fieldExists = [] then (Inl (Err 404 ''Venue not found''), d)
                else if isAdmin then
                  let imagesResult =
                        map image_url (filter (\<lambda>i. field_id i = fieldId) (field_images d));
                      files1 = fold (\<lambda>url. unlink_if_exists (resolve url)) imagesResult (files d);
                      d1 = d\<lparr>field_images :=
                               filter (\<lambda>i. field_id i \<noteq> fieldId) (field_images d),
                             venue_reports :=
                               filter (\<lambda>r. venue_id r \<noteq> fieldId) (venue_reports d),
                             files := files1\<rparr>
                  in (case football_fields d1 of
                        None \<Rightarrow> (Inl (Err 500 ''Server error''), d1)
                      | Some ffs \<Rightarrow>
                          (case venue_check (\<lambda>_. True) fieldId (sports_venues d1) ffs of
                             [] \<Rightarrow> (Inl (Err 404 ''Venue not found''), d1)
                           | (tableName, _) # _ \<Rightarrow>
                               (case delete_rows tableName (\<lambda>_. True) fieldId d1 of
                                  (n, d2) \<Rightarrow>
                                    if n = 0
                                    then (Inl (Err 404 ''Venue not found or access denied''), d2)
                                    else (Inr ''Impianto eliminato con successo (Admin)'', d2))))
                else
                  (case football_fields d of
                     None \<Rightarrow> (Inl (Err 500 ''Server error''), d)
                   | Some ffs \<Rightarrow>
                       (case venue_check (\<lambda>a. a = Some userId) fieldId (sports_venues d) ffs of
                          [] \<Rightarrow> (Inl (Err 404 ''Venue not found or access denied''), d)
                        | (tableName, _) # _ \<Rightarrow>
                            (case delete_rows tableName (\<lambda>a. a = Some userId) fieldId d of
                               (n, d2) \<Rightarrow>
                                 if n = 0
                                 then (Inl (Err 404 ''Venue not found or access denied''), d2)
                                 else (Inr ''Field deleted successfully'', d2)))))"











text \<open>
  One object of the \<^verbatim>\<open>images\<close> array; \<^verbatim>\<open>json_agg\<close> over no row is null, and
  \<^verbatim>\<open>COALESCE\<close> puts the empty array in its place.
\<close>

record image_json =
  j_id :: nat
  j_image_url :: string
  j_uploaded_by :: nat
  j_uploaded_at :: nat
  j_is_primary :: bool




record venue_row =
  row_venue :: venue
  added_by_username :: "string option"
  images :: "image_json list"












section \<open>Report manager\<close>

text \<open>
  The validation chain of \<^verbatim>\<open>router.post('/:id/report')\<close>.  A field that the
  body lacks is \<open>None\<close>.  \<^verbatim>\<open>isIn\<close> fails on a missing field; \<^verbatim>\<open>optional()\<close>
  skips \<^verbatim>\<open>isLength\<close> on a missing field only.
\<close>

definition report_types :: "string list" where
  "report_types = [''non_esiste'', ''info_errate'', ''altro'']"

definition validate_report :: "string option \<Rightarrow> string option \<Rightarrow> string list" where
  "validate_report rtype descr =
     (if (case rtype of None \<Rightarrow> False | Some t \<Rightarrow> t \<in> set report_types) then []
      else [''Tipo di segnalazione non valido'']) @
     (case descr of
        None \<Rightarrow> []
      | Some s \<Rightarrow> if 10 \<le> length s \<and> length s \<le> 500 then []
                  else [''Descrizione deve essere tra 10 e 500 caratteri''])"

text \<open>
  The notifier (\<^verbatim>\<open>sendFieldReportEmail\<close>, outside \<^verbatim>\<open>src/\<close>) is an argument:
  \<open>send emailData\<close> is \<open>True\<close> when the call returns and \<open>False\<close> when it
  throws.  A template literal prints a null column as \<^verbatim>\<open>null\<close>.
\<close>

record email_data =
  fieldName :: string
  fieldAddress :: string
  reportType :: string
  e_description :: "string option"
  reporterUsername :: string
  reportDate :: nat

definition template :: "string option \<Rightarrow> string" where
  "template x = (case x of None \<Rightarrow> ''null'' | Some s \<Rightarrow> s)"

datatype log_line = Log string | Log_error string

text \<open>
  The message of the duplicate-report answer; its accented letter is the two
  bytes of its UTF-8 form.
\<close>

definition already_reported :: string where
  "already_reported = ''Hai gi'' @ [CHR 0xC3, CHR 0xA0] @ '' segnalato questo impianto''"

record created =
  c_message :: string
  c_report :: report

definition create_report ::
  "(email_data \<Rightarrow> bool) \<Rightarrow> db \<Rightarrow> nat \<Rightarrow> nat \<Rightarrow> nat \<Rightarrow> string option \<Rightarrow> string option
     \<Rightarrow> (error + created) \<times> db \<times> log_line list" where
  "create_report send d now userId fieldId rtype descr =
     (let errors = validate_report rtype descr
      in if errors \<noteq> [] then (Inl (Invalid errors), d, [])
         else
           (case filter (\<lambda>f. v_id f = fieldId) (sports_venues d) of
              [] \<Rightarrow> (Inl (Err 404 ''Venue not found''), d, [])
            | field # _ \<Rightarrow>
                let existingReport =
                      filter (\<lambda>r. venue_id r = fieldId \<and> reported_by_user_id r = userId)
                             (venue_reports d)
                in if existingReport \<noteq> []
                   then (Inl (Err 400 already_reported), d, [])
                   else
                     let reporter =
                           (case filter (\<lambda>u. u_id u = userId) (users d) of
                              [] \<Rightarrow> ''Utente anonimo''
                            | u # _ \<Rightarrow> if username u = [] then ''Utente anonimo'' else username u);
                         row = \<lparr>r_id = next_report_id d, venue_id = fieldId,
                                reported_by_user_id = userId, report_type = the rtype,
                                description = descr, status = ''pending'',
                                r_created_at = now\<rparr>;
                         d1 = d\<lparr>venue_reports := venue_reports d @ [row],
                                next_report_id := Suc (next_report_id d)\<rparr>;
                         emailData = \<lparr>fieldName = v_name field,
                                      fieldAddress = template (v_address field) @ '', '' @
                                        template (v_city field) @ '', '' @
                                        template (v_province field),
                                      reportType = the rtype, e_description = descr,
                                      reporterUsername = reporter, reportDate = now\<rparr>;
                         logs = (if send emailData
                                 then [Log ''Email notification sent for field report:'']
                                 else [Log_error ''Error sending email notification:''])
                     in (Inr \<lparr>c_message = ''Segnalazione inviata con successo'',
                              c_report = row\<rparr>, d1, logs)))"

section \<open>Scenarios\<close>

text \<open>
  A state for the closed statements below: the three venues that
  \<^verbatim>\<open>init-db\<close> inserts (one statement, so one timestamp, and no owner), a venue
  that user 2 added later, the administrator and two registered users, and an
  empty \<^verbatim>\<open>football_fields\<close> relation.
\<close>

definition demo_db :: db where
  "demo_db =
     \<lparr>users = [\<lparr>u_id = 1, username = ''Leosant06'', is_admin = Some True\<rparr>,
               \<lparr>u_id = 2, username = ''anna'', is_admin = Some False\<rparr>,
               \<lparr>u_id = 3, username = ''bruno'', is_admin = Some False\<rparr>],
      sports_venues =
        [\<lparr>v_id = 1, v_name = ''Campo Comunale San Siro'', v_address = None,
          v_city = Some ''Milano'', v_province = Some ''MI'', v_region = Some ''Lombardia'',
          v_sport_type = ''football'', v_surface_type = Some ''erba naturale'',
          v_venue_type = Some ''11vs11'', v_added_by_user_id = None, v_created_at = 10\<rparr>,
         \<lparr>v_id = 2, v_name = ''Centro Sportivo Comunale'', v_address = None,
          v_city = Some ''Roma'', v_province = Some ''RM'', v_region = Some ''Lazio'',
          v_sport_type = ''football'', v_surface_type = Some ''erba sintetica'',
          v_venue_type = Some ''11vs11'', v_added_by_user_id = None, v_created_at = 10\<rparr>,
         \<lparr>v_id = 3, v_name = ''Piscina Comunale Milano'', v_address = None,
          v_city = Some ''Milano'', v_province = Some ''MI'', v_region = Some ''Lombardia'',
          v_sport_type = ''swimming'', v_surface_type = Some ''acqua'',
          v_venue_type = Some ''olimpionica'', v_added_by_user_id = None, v_created_at = 10\<rparr>,
         \<lparr>v_id = 4, v_name = ''Campetto'', v_address = Some ''Via Roma 1'',
          v_city = Some ''Torino'', v_province = Some ''TO'', v_region = Some ''Piemonte'',
          v_sport_type = ''basketball'', v_surface_type = None,
          v_venue_type = None, v_added_by_user_id = Some 2, v_created_at = 20\<rparr>],
      football_fields = Some [],
      field_images = [],
      venue_reports = [],
      next_image_id = 1,
      next_report_id = 1,
      files = []\<rparr>"

text \<open>
  The enumeration of report types as the specification writes it, to be compared
  with \<open>report_types\<close>, the one the validator checks.
\<close>

definition spec_report_types :: "string list" where
  "spec_report_types = [''does-not-exist'', ''incorrect-info'', ''other'']"

text \<open>The state after user 2 has filed a report against venue 1.\<close>

definition reported_db :: db where
  "reported_db = fst (snd (create_report (\<lambda>_. True) demo_db 30 2 1 (Some ''info_errate'') None))"

text \<open>The same state in a data store that has no \<^verbatim>\<open>football_fields\<close> relation.\<close>

definition no_legacy_db :: db where
  "no_legacy_db = demo_db\<lparr>football_fields := None\<rparr>"

text \<open>A value for \<^verbatim>\<open>path.join(__dirname, '..', url)\<close>.\<close>

definition demo_resolve :: "string \<Rightarrow> string" where
  "demo_resolve url = ''/srv/app'' @ url"

text \<open>
  User 3 attaches two images to venue 1; and: user 3 attaches an image to
  venue 1, user 2 attaches two images to venue 2 and makes the second one
  primary.
\<close>

definition two_images :: db where
  "two_images =
     snd (upload_image (snd (upload_image demo_db 100 3 1 (Some ''a.jpg''))) 110 3 1
            (Some ''b.jpg''))"

definition three_images :: db where
  "three_images =
     (let d1 = snd (upload_image demo_db 100 3 1 (Some ''a.jpg''));
          d2 = snd (upload_image d1 110 2 2 (Some ''b.jpg''));
          d3 = snd (upload_image d2 120 2 2 (Some ''c.jpg''))
      in snd (set_primary d3 2 2 3))"

text \<open>
  User 3 attaches image 1 to venue 1 and user 2 attaches the images 2, 3 and 4 to
  venue 2; then user 2 removes image 2, the primary image of venue 2, through a
  path that names venue 99, which leaves venue 2 with two images and no primary
  one, and user 3 attaches image 5 to venue 1.
\<close>

definition four_uploads :: db where
  "four_uploads =
     (let d1 = snd (upload_image demo_db 100 3 1 (Some ''a.jpg''));
          d2 = snd (upload_image d1 110 2 2 (Some ''b.jpg''));
          d3 = snd (upload_image d2 120 2 2 (Some ''c.jpg''))
      in snd (upload_image d3 130 2 2 (Some ''d.jpg'')))"

definition five_uploads :: db where
  "five_uploads =
     snd (upload_image (snd (delete_image four_uploads 2 99 2)) 140 3 1 (Some ''e.jpg''))"



section \<open>Properties of the image manager\<close>

lemma filter_update_primary_empty:
  "(filter (\<lambda>i. i_id i = k \<and> field_id i = f) (update_primary Q b xs) = []) =
   (filter (\<lambda>i. i_id i = k \<and> field_id i = f) xs = [])"
  by (induction xs) (auto simp: update_primary_def)

lemma set_primary_updates_idem:
  "update_primary (\<lambda>i. i_id i = k) True (update_primary (\<lambda>i. field_id i = f) False
     (update_primary (\<lambda>i. i_id i = k) True (update_primary (\<lambda>i. field_id i = f) False xs))) =
   update_primary (\<lambda>i. i_id i = k) True (update_primary (\<lambda>i. field_id i = f) False xs)"
  by (simp add: update_primary_def)

text \<open>
  C4.  Setting the same image primary twice in succession answers as the first
  call did and leaves exactly the state the first call left: every flag of every
  image and every other component of the state are equal.  This holds for an
  image of the venue (both calls succeed) and also when the first call is
  refused (both calls are refused and nothing changes).
\<close>

theorem set_primary_idempotent:
  "set_primary (snd (set_primary d userId fieldId imageId)) userId fieldId imageId =
   set_primary d userId fieldId imageId"
  by (simp add: set_primary_def Let_def filter_update_primary_empty set_primary_updates_idem)

text \<open>
  C10.  The answer and the resulting state of setting the primary image are the
  same for any two callers on the same state, venue and image: the handler
  consults neither the caller's identity nor the caller's row of the users
  table.
\<close>

theorem set_primary_ignores_caller:
  "set_primary d userId fieldId imageId = set_primary d userId' fieldId imageId"
  by (simp add: set_primary_def)

lemma filter_id_single:
  "distinct (map i_id xs) \<Longrightarrow> img \<in> set xs \<Longrightarrow> filter (\<lambda>i. i_id i = i_id img) xs = [img]"
proof (induction xs)
  case Nil
  then show ?case by simp
next
  case (Cons x xs)
  show ?case
  proof (cases "x = img")
    case True
    with Cons.prems have "i_id img \<notin> i_id ` set xs" by simp
    then have "\<forall>y\<in>set xs. i_id y \<noteq> i_id img" by (metis imageI)
    then have "filter (\<lambda>i. i_id i = i_id img) xs = []" by (simp add: filter_empty_conv)
    with True show ?thesis by simp
  next
    case False
    with Cons.prems have "img \<in> set xs" "i_id x \<noteq> i_id img" by auto
    with Cons show ?thesis by simp
  qed
qed

lemma update_primary_other_venue:
  "\<forall>i\<in>set xs. P i \<longrightarrow> field_id i \<noteq> v \<Longrightarrow>
   filter (\<lambda>i. field_id i = v) (update_primary P b xs) = filter (\<lambda>i. field_id i = v) xs"
  by (induction xs) (auto simp: update_primary_def)

lemma update_primary_ids:
  "map i_id (update_primary P b xs) = map i_id xs"
  by (simp add: update_primary_def)

lemma sort_key_head_min:
  assumes "sort_key k ys = x # zs"
  shows "x \<in> set ys \<and> (\<forall>y\<in>set ys. k x \<le> k y)"
proof -
  have "set ys = set (x # zs)" using assms set_sort [of k ys] by simp
  moreover have "sorted (map k (x # zs))" using assms sorted_sort_key [of k ys] by simp
  ultimately show ?thesis by auto
qed

lemma distinct_ids_filter:
  "distinct (map i_id xs) \<Longrightarrow> distinct (map i_id (filter P xs))"
  by (simp add: distinct_map_filter)

lemma same_id_same_row:
  "distinct (map i_id xs) \<Longrightarrow> a \<in> set xs \<Longrightarrow> b \<in> set xs \<Longrightarrow> i_id a = i_id b \<Longrightarrow> a = b"
  by (auto simp: distinct_map dest: inj_onD)

lemma delete_image_result:
  assumes "img \<in> set (field_images d)" and "distinct (map i_id (field_images d))"
    and "uploaded_by img = userId" and "pg_integer (i_id img)"
  shows "fst (delete_image d userId fieldId (i_id img)) =
           (if is_primary img \<and> \<not> pg_integer fieldId then Inl (Err 500 ''Server error'')
            else Inr ''Image deleted successfully'')"
    and "field_images (snd (delete_image d userId fieldId (i_id img))) =
           (if is_primary img \<and> pg_integer fieldId then
              (case sort_key uploaded_at
                      (filter (\<lambda>i. field_id i = fieldId)
                         (delete_image_row (i_id img) (field_images d))) of
                 [] \<Rightarrow> delete_image_row (i_id img) (field_images d)
               | nextPrimary # _ \<Rightarrow>
                   update_primary (\<lambda>i. i_id i = i_id nextPrimary) True
                     (delete_image_row (i_id img) (field_images d)))
            else delete_image_row (i_id img) (field_images d))"
    and "next_image_id (snd (delete_image d userId fieldId (i_id img))) = next_image_id d"
  using assms filter_id_single [of "field_images d" img]
  by (simp_all add: delete_image_def Let_def split: list.splits)

lemma promote_by_row:
  assumes "distinct (map i_id xs)" and "np \<in> set xs"
  shows "update_primary (\<lambda>i. i_id i = i_id np) True xs =
         map (\<lambda>i. if i = np then i\<lparr>is_primary := True\<rparr> else i) xs"
  unfolding update_primary_def
proof (rule map_cong)
  fix x
  assume "x \<in> set xs"
  with assms have "(i_id x = i_id np) = (x = np)"
    using same_id_same_row [of xs x np] by auto
  then show "(if i_id x = i_id np then x\<lparr>is_primary := True\<rparr> else x) =
             (if x = np then x\<lparr>is_primary := True\<rparr> else x)"
    by simp
qed simp

text \<open>
  C9, as the code has it.  The image is looked up by its id alone: whatever venue
  id the path carries, the uploader's deletion of an existing image removes the
  row.  The answer is the success message, except that it is status 500 when
  the image was primary and the path's venue id is beyond the range of the
  column, for then the query for the next primary image fails after the
  deletion.  The images of every venue other than the path's are left as they
  were, apart from the deleted row, so when the path's venue is not the image's
  venue no remaining image of the image's venue is promoted.  When the deleted
  image was primary, the path's venue id is in range and that venue has images
  left, exactly one row changes: one image of the path's venue whose upload time
  is the earliest among them is made primary.  In every other case no row
  changes besides the deletion.
\<close>

theorem delete_image_ignores_path_venue:
  assumes "img \<in> set (field_images d)" and "distinct (map i_id (field_images d))"
    and "uploaded_by img = userId" and "pg_integer (i_id img)"
  shows "fst (delete_image d userId fieldId (i_id img)) =
           (if is_primary img \<and> \<not> pg_integer fieldId then Inl (Err 500 ''Server error'')
            else Inr ''Image deleted successfully'') \<and>
    i_id img \<notin> i_id ` set (field_images (snd (delete_image d userId fieldId (i_id img)))) \<and>
    (\<forall>v. v \<noteq> fieldId \<longrightarrow>
       filter (\<lambda>i. field_id i = v) (field_images (snd (delete_image d userId fieldId (i_id img)))) =
       filter (\<lambda>i. field_id i = v) (delete_image_row (i_id img) (field_images d))) \<and>
    (is_primary img \<and> pg_integer fieldId \<and>
     filter (\<lambda>i. field_id i = fieldId) (delete_image_row (i_id img) (field_images d)) \<noteq> [] \<longrightarrow>
       (\<exists>np\<in>set (delete_image_row (i_id img) (field_images d)).
          field_id np = fieldId \<and>
          (\<forall>i\<in>set (delete_image_row (i_id img) (field_images d)).
             field_id i = fieldId \<longrightarrow> uploaded_at np \<le> uploaded_at i) \<and>
          field_images (snd (delete_image d userId fieldId (i_id img))) =
            map (\<lambda>i. if i = np then i\<lparr>is_primary := True\<rparr> else i)
              (delete_image_row (i_id img) (field_images d)))) \<and>
    (\<not> (is_primary img \<and> pg_integer fieldId \<and>
        filter (\<lambda>i. field_id i = fieldId) (delete_image_row (i_id img) (field_images d)) \<noteq> []) \<longrightarrow>
       field_images (snd (delete_image d userId fieldId (i_id img))) =
         delete_image_row (i_id img) (field_images d))"
proof -
  let ?rest = "delete_image_row (i_id img) (field_images d)"
  let ?path = "filter (\<lambda>i. field_id i = fieldId) ?rest"
  let ?cands = "sort_key uploaded_at ?path"
  let ?d' = "snd (delete_image d userId fieldId (i_id img))"
  let ?promo = "is_primary img \<and> pg_integer fieldId \<and> ?path \<noteq> []"
  note res = delete_image_result [OF assms, of fieldId]
  have dist: "distinct (map i_id ?rest)"
    using assms(2) by (simp add: delete_image_row_def distinct_ids_filter)
  have gone: "i_id img \<notin> i_id ` set ?rest" by (auto simp: delete_image_row_def)
  have cands_Nil: "(?cands = []) = (?path = [])"
    using length_sort [of uploaded_at ?path] by (metis length_0_conv)
  have c5: "field_images ?d' = ?rest" if "\<not> ?promo"
    using that cands_Nil by (auto simp: res(2) split: list.splits)
  have c4: "\<exists>np\<in>set ?rest. field_id np = fieldId \<and>
              (\<forall>i\<in>set ?rest. field_id i = fieldId \<longrightarrow> uploaded_at np \<le> uploaded_at i) \<and>
              field_images ?d' = map (\<lambda>i. if i = np then i\<lparr>is_primary := True\<rparr> else i) ?rest"
    if "?promo"
  proof -
    from that cands_Nil obtain np zs where Cons: "?cands = np # zs"
      by (cases ?cands) auto
    from sort_key_head_min [OF Cons]
    have np: "np \<in> set ?rest" "field_id np = fieldId"
      and least: "\<forall>i\<in>set ?rest. field_id i = fieldId \<longrightarrow> uploaded_at np \<le> uploaded_at i"
      by auto
    from that Cons have "field_images ?d' = update_primary (\<lambda>i. i_id i = i_id np) True ?rest"
      by (simp add: res(2))
    also have "\<dots> = map (\<lambda>i. if i = np then i\<lparr>is_primary := True\<rparr> else i) ?rest"
      using dist np(1) by (rule promote_by_row)
    finally show ?thesis using np least by blast
  qed
  have ids: "map i_id (field_images ?d') = map i_id ?rest"
    by (simp add: res(2) update_primary_ids split: list.splits)
  have c2: "i_id img \<notin> i_id ` set (field_images ?d')"
  proof -
    have "i_id ` set (field_images ?d') = set (map i_id (field_images ?d'))" by simp
    also have "\<dots> = i_id ` set ?rest" by (simp only: ids set_map)
    finally show ?thesis using gone by simp
  qed
  have c3: "filter (\<lambda>i. field_id i = v) (field_images ?d') = filter (\<lambda>i. field_id i = v) ?rest"
    if "v \<noteq> fieldId" for v
  proof (cases "?promo")
    case False
    from c5 [OF False] show ?thesis by simp
  next
    case True
    from c4 [OF True] obtain np where np: "np \<in> set ?rest" "field_id np = fieldId"
      and eq: "field_images ?d' = map (\<lambda>i. if i = np then i\<lparr>is_primary := True\<rparr> else i) ?rest"
      by blast
    have "field_images ?d' = update_primary (\<lambda>i. i_id i = i_id np) True ?rest"
      using promote_by_row [OF dist np(1)] eq by simp
    moreover have "\<forall>i\<in>set ?rest. i_id i = i_id np \<longrightarrow> field_id i \<noteq> v"
      using same_id_same_row [OF dist _ np(1)] np(2) that by auto
    then have "filter (\<lambda>i. field_id i = v)
                 (update_primary (\<lambda>i. i_id i = i_id np) True ?rest) =
               filter (\<lambda>i. field_id i = v) ?rest"
      by (rule update_primary_other_venue)
    ultimately show ?thesis by simp
  qed
  from res(1) c2 c3 c4 c5 show ?thesis by blast
qed

lemma demo_db_fields:
  "map v_id (sports_venues demo_db) = [1, 2, 3, 4]"
  "field_images demo_db = []"
  "next_image_id demo_db = 1"
  by (simp_all add: demo_db_def)

lemma upload_image_fields:
  assumes "fieldId \<in> set (map v_id (sports_venues d))"
  shows "field_images (snd (upload_image d now userId fieldId (Some filename))) =
           field_images d @
           [\<lparr>i_id = next_image_id d, field_id = fieldId,
             image_url = ''/uploads/field-images/'' @ filename, uploaded_by = userId,
             uploaded_at = now,
             is_primary = (filter (\<lambda>i. field_id i = fieldId) (field_images d) = [])\<rparr>]"
    and "next_image_id (snd (upload_image d now userId fieldId (Some filename))) =
           Suc (next_image_id d)"
    and "sports_venues (snd (upload_image d now userId fieldId (Some filename))) =
           sports_venues d"
proof -
  from assms have "filter (\<lambda>v. v_id v = fieldId) (sports_venues d) \<noteq> []"
    by (auto simp: filter_empty_conv)
  then show
    "field_images (snd (upload_image d now userId fieldId (Some filename))) =
           field_images d @
           [\<lparr>i_id = next_image_id d, field_id = fieldId,
             image_url = ''/uploads/field-images/'' @ filename, uploaded_by = userId,
             uploaded_at = now,
             is_primary = (filter (\<lambda>i. field_id i = fieldId) (field_images d) = [])\<rparr>]"
    "next_image_id (snd (upload_image d now userId fieldId (Some filename))) =
           Suc (next_image_id d)"
    "sports_venues (snd (upload_image d now userId fieldId (Some filename))) =
           sports_venues d"
    by (simp_all add: upload_image_def Let_def)
qed

lemma set_primary_fields:
  assumes "(imageId, fieldId) \<in> set (map (\<lambda>i. (i_id i, field_id i)) (field_images d))"
  shows "field_images (snd (set_primary d userId fieldId imageId)) =
           update_primary (\<lambda>i. i_id i = imageId) True
             (update_primary (\<lambda>i. field_id i = fieldId) False (field_images d))"
proof -
  from assms have "filter (\<lambda>i. i_id i = imageId \<and> field_id i = fieldId) (field_images d) \<noteq> []"
    by (auto simp: filter_empty_conv)
  then show ?thesis by (simp add: set_primary_def Let_def)
qed

lemma two_images_rows:
  "field_images two_images =
     [\<lparr>i_id = 1, field_id = 1, image_url = ''/uploads/field-images/a.jpg'', uploaded_by = 3,
       uploaded_at = 100, is_primary = True\<rparr>,
      \<lparr>i_id = 2, field_id = 1, image_url = ''/uploads/field-images/b.jpg'', uploaded_by = 3,
       uploaded_at = 110, is_primary = False\<rparr>]"
  by (simp add: two_images_def upload_image_fields demo_db_fields)

lemma three_images_rows:
  "field_images three_images =
     [\<lparr>i_id = 1, field_id = 1, image_url = ''/uploads/field-images/a.jpg'', uploaded_by = 3,
       uploaded_at = 100, is_primary = True\<rparr>,
      \<lparr>i_id = 2, field_id = 2, image_url = ''/uploads/field-images/b.jpg'', uploaded_by = 2,
       uploaded_at = 110, is_primary = False\<rparr>,
      \<lparr>i_id = 3, field_id = 2, image_url = ''/uploads/field-images/c.jpg'', uploaded_by = 2,
       uploaded_at = 120, is_primary = True\<rparr>]"
  by (simp add: three_images_def Let_def set_primary_fields upload_image_fields demo_db_fields
        update_primary_def)

lemma delete_image_keeps:
  "next_image_id (snd (delete_image d userId fieldId imageId)) = next_image_id d"
  "sports_venues (snd (delete_image d userId fieldId imageId)) = sports_venues d"
  by (simp_all add: delete_image_def Let_def split: list.splits)

lemma four_uploads_rows:
  "field_images four_uploads =
     [\<lparr>i_id = 1, field_id = 1, image_url = ''/uploads/field-images/a.jpg'', uploaded_by = 3,
       uploaded_at = 100, is_primary = True\<rparr>,
      \<lparr>i_id = 2, field_id = 2, image_url = ''/uploads/field-images/b.jpg'', uploaded_by = 2,
       uploaded_at = 110, is_primary = True\<rparr>,
      \<lparr>i_id = 3, field_id = 2, image_url = ''/uploads/field-images/c.jpg'', uploaded_by = 2,
       uploaded_at = 120, is_primary = False\<rparr>,
      \<lparr>i_id = 4, field_id = 2, image_url = ''/uploads/field-images/d.jpg'', uploaded_by = 2,
       uploaded_at = 130, is_primary = False\<rparr>]"
  "next_image_id four_uploads = 5"
  "map v_id (sports_venues four_uploads) = [1, 2, 3, 4]"
  by (simp_all add: four_uploads_def Let_def upload_image_fields demo_db_fields)

lemma five_uploads_rows:
  "field_images five_uploads =
     [\<lparr>i_id = 1, field_id = 1, image_url = ''/uploads/field-images/a.jpg'', uploaded_by = 3,
       uploaded_at = 100, is_primary = True\<rparr>,
      \<lparr>i_id = 3, field_id = 2, image_url = ''/uploads/field-images/c.jpg'', uploaded_by = 2,
       uploaded_at = 120, is_primary = False\<rparr>,
      \<lparr>i_id = 4, field_id = 2, image_url = ''/uploads/field-images/d.jpg'', uploaded_by = 2,
       uploaded_at = 130, is_primary = False\<rparr>,
      \<lparr>i_id = 5, field_id = 1, image_url = ''/uploads/field-images/e.jpg'', uploaded_by = 3,
       uploaded_at = 140, is_primary = False\<rparr>]"
proof -
  have "field_images (snd (delete_image four_uploads 2 99 2)) =
     [\<lparr>i_id = 1, field_id = 1, image_url = ''/uploads/field-images/a.jpg'', uploaded_by = 3,
       uploaded_at = 100, is_primary = True\<rparr>,
      \<lparr>i_id = 3, field_id = 2, image_url = ''/uploads/field-images/c.jpg'', uploaded_by = 2,
       uploaded_at = 120, is_primary = False\<rparr>,
      \<lparr>i_id = 4, field_id = 2, image_url = ''/uploads/field-images/d.jpg'', uploaded_by = 2,
       uploaded_at = 130, is_primary = False\<rparr>]"
    using delete_image_result(2) [where d = four_uploads and userId = 2 and fieldId = 99
        and img = "\<lparr>i_id = 2, field_id = 2, image_url = ''/uploads/field-images/b.jpg'',
                     uploaded_by = 2, uploaded_at = 110, is_primary = True\<rparr>"]
    by (simp add: four_uploads_rows pg_integer_def delete_image_row_def)
  then show ?thesis
    by (simp add: five_uploads_def upload_image_fields delete_image_keeps four_uploads_rows)
qed

text \<open>
  Venue 1 has the images 1 (primary) and 5; venue 2 has the images 3 and 4, none
  of them primary.  The uploader removes image 1 through a path that names
  venue 2: the answer is the success message; image 3, the older of the two
  images of venue 2, is made primary and image 4 is not; image 5 of venue 1 is
  not promoted.
\<close>

theorem delete_image_ignores_path_venue_witness:
  "flags five_uploads = [(1, 1, True), (3, 2, False), (4, 2, False), (5, 1, False)] \<and>
   fst (delete_image five_uploads 3 2 1) = Inr ''Image deleted successfully'' \<and>
   flags (snd (delete_image five_uploads 3 2 1)) = [(3, 2, True), (4, 2, False), (5, 1, False)]"
  using delete_image_ignores_path_venue [where d = five_uploads and userId = 3 and fieldId = 2
      and img = "\<lparr>i_id = 1, field_id = 1, image_url = ''/uploads/field-images/a.jpg'',
                   uploaded_by = 3, uploaded_at = 100, is_primary = True\<rparr>"]
  by (auto simp: five_uploads_rows flags_def pg_integer_def delete_image_row_def)

text \<open>
  The claim's "succeeds for any path venue id" fails for a primary image and a
  path venue id beyond the range of the column: the uploader of image 1, the
  primary image of venue 1, sends \<^verbatim>\<open>DELETE /2147483648/image/1\<close>.  The row
  is deleted, nothing is promoted, and the answer is status 500.
\<close>

theorem delete_image_out_of_range_counterexample:
  "flags two_images = [(1, 1, True), (2, 1, False)] \<and>
   fst (delete_image two_images 3 2147483648 1) = Inl (Err 500 ''Server error'') \<and>
   flags (snd (delete_image two_images 3 2147483648 1)) = [(2, 1, False)]"
  by (simp add: flags_def delete_image_def delete_image_row_def two_images_rows
        pg_integer_def Let_def)

text \<open>
  C3 at a failing input.  Venue 1 has the images 1 (primary) and 2; the uploader
  removes image 1 through a path that names venue 99.  The removal succeeds,
  image 2 remains in venue 1, and no image of venue 1 is primary.
\<close>

theorem remove_primary_wrong_path_no_promotion:
  "flags two_images = [(1, 1, True), (2, 1, False)] \<and>
   fst (delete_image two_images 3 99 1) = Inr ''Image deleted successfully'' \<and>
   flags (snd (delete_image two_images 3 99 1)) = [(2, 1, False)]"
  by (simp add: flags_def delete_image_def delete_image_row_def two_images_rows
        pg_integer_def Let_def)

text \<open>
  C1 at a failing input.  Starting from no image at all, after three uploads and
  one change of primary image the invariant holds for venues 1 and 2.  The
  uploader then removes image 1, the primary image of venue 1, through a path
  that names venue 2: the oldest image of venue 2 is promoted beside the primary
  image that venue 2 already has, and venue 2 has two primary images.
\<close>

theorem primary_invariant_broken:
  "field_images demo_db = [] \<and>
   primary_invariant three_images 1 \<and> primary_invariant three_images 2 \<and>
   fst (delete_image three_images 3 2 1) = Inr ''Image deleted successfully'' \<and>
   flags (snd (delete_image three_images 3 2 1)) = [(2, 2, True), (3, 2, True)] \<and>
   \<not> primary_invariant (snd (delete_image three_images 3 2 1)) 2"
  by (simp add: flags_def primary_invariant_def venue_images_def delete_image_def
        delete_image_row_def update_primary_def three_images_rows pg_integer_def Let_def)
    (simp add: demo_db_def)

subsection \<open>Requests whose path names the image's venue\<close>

text \<open>
  The invariant is kept by an upload, by a change of primary image, and by a
  removal whose path names the venue of the removed image (an id within the range
  of the column); hence by every run of such requests from a state without
  images.
\<close>

lemma primary_invariant_iff: "primary_invariant d v = one_primary (field_images d) v"
  by (simp add: primary_invariant_def venue_images_def one_primary_def)

lemma update_primary_noop: "\<forall>i\<in>set xs. \<not> P i \<Longrightarrow> update_primary P b xs = xs"
  by (induction xs) (simp_all add: update_primary_def)

lemma update_primary_venue_empty:
  "(filter (\<lambda>i. field_id i = v) (update_primary P b xs) = []) =
   (filter (\<lambda>i. field_id i = v) xs = [])"
  by (induction xs) (auto simp: update_primary_def)

lemma count_after_promote:
  assumes "distinct (map i_id xs)" and "t \<in> set xs"
  shows "length (filter (\<lambda>i. field_id i = v \<and> is_primary i)
           (update_primary (\<lambda>i. i_id i = i_id t) True xs)) =
         length (filter (\<lambda>i. field_id i = v \<and> is_primary i) xs) +
           (if field_id t = v \<and> \<not> is_primary t then 1 else 0)"
  using assms
proof (induction xs)
  case Nil
  then show ?case by simp
next
  case (Cons x xs)
  show ?case
  proof (cases "x = t")
    case True
    with Cons.prems have "i_id t \<notin> i_id ` set xs" by simp
    then have "\<forall>i\<in>set xs. \<not> i_id i = i_id t" by (metis imageI)
    then have "update_primary (\<lambda>i. i_id i = i_id t) True xs = xs"
      by (rule update_primary_noop)
    then have "update_primary (\<lambda>i. i_id i = i_id t) True (t # xs) = t\<lparr>is_primary := True\<rparr> # xs"
      by (simp add: update_primary_def)
    with True show ?thesis by simp
  next
    case False
    with Cons.prems have t: "t \<in> set xs" and "i_id x \<notin> i_id ` set xs" by auto
    then have ne: "i_id x \<noteq> i_id t" by (metis imageI)
    have "update_primary (\<lambda>i. i_id i = i_id t) True (x # xs) =
            x # update_primary (\<lambda>i. i_id i = i_id t) True xs"
      using ne by (simp add: update_primary_def)
    moreover from Cons.prems have "distinct (map i_id xs)" by simp
    ultimately show ?thesis using Cons.IH t by simp
  qed
qed

lemma cleared_venue:
  "filter (\<lambda>i. field_id i = f \<and> is_primary i)
     (update_primary (\<lambda>i. field_id i = f) False xs) = []"
  by (induction xs) (simp_all add: update_primary_def)

lemma cleared_other_venue:
  "v \<noteq> f \<Longrightarrow>
   filter (\<lambda>i. field_id i = v \<and> is_primary i)
     (update_primary (\<lambda>i. field_id i = f) False xs) =
   filter (\<lambda>i. field_id i = v \<and> is_primary i) xs"
  by (induction xs) (auto simp: update_primary_def)

lemma count_after_delete:
  assumes "distinct (map i_id xs)" and "t \<in> set xs"
  shows "length (filter P xs) =
         length (filter P (delete_image_row (i_id t) xs)) + (if P t then 1 else 0)"
  using assms
proof (induction xs)
  case Nil
  then show ?case by simp
next
  case (Cons x xs)
  show ?case
  proof (cases "x = t")
    case True
    with Cons.prems have "i_id t \<notin> i_id ` set xs" by simp
    then have "\<forall>i\<in>set xs. i_id i \<noteq> i_id t" by (metis imageI)
    then have "delete_image_row (i_id t) xs = xs"
      by (simp add: delete_image_row_def)
    with True show ?thesis by (simp add: delete_image_row_def)
  next
    case False
    with Cons.prems have t: "t \<in> set xs" and "i_id x \<notin> i_id ` set xs" by auto
    then have ne: "i_id x \<noteq> i_id t" by (metis imageI)
    from Cons.prems have "distinct (map i_id xs)" by simp
    from Cons.IH [OF this t] ne show ?thesis by (simp add: delete_image_row_def)
  qed
qed


lemma one_primary_attach:
  assumes "one_primary imgs v"
  shows "one_primary (imgs @ [\<lparr>i_id = n, field_id = f, image_url = u, uploaded_by = w,
            uploaded_at = t, is_primary = (filter (\<lambda>i. field_id i = f) imgs = [])\<rparr>]) v"
proof (cases "filter (\<lambda>i. field_id i = f) imgs = []")
  case True
  then have "filter (\<lambda>i. field_id i = f \<and> is_primary i) imgs = []"
    by (auto simp: filter_empty_conv)
  with assms True show ?thesis by (auto simp: one_primary_def)
next
  case False
  with assms show ?thesis by (auto simp: one_primary_def)
qed

lemma one_primary_set_primary:
  assumes "distinct (map i_id imgs)" and "t \<in> set imgs" and "field_id t = f"
    and "one_primary imgs v"
  shows "one_primary (update_primary (\<lambda>i. i_id i = i_id t) True
           (update_primary (\<lambda>i. field_id i = f) False imgs)) v"
proof -
  let ?imgs1 = "update_primary (\<lambda>i. field_id i = f) False imgs"
  let ?t1 = "t\<lparr>is_primary := False\<rparr>"
  have t1: "?t1 \<in> set ?imgs1"
    using assms(2,3) by (force simp: update_primary_def)
  have d1: "distinct (map i_id ?imgs1)"
    using assms(1) by (simp add: update_primary_ids)
  have cnt: "length (filter (\<lambda>i. field_id i = v \<and> is_primary i)
           (update_primary (\<lambda>i. i_id i = i_id t) True ?imgs1)) =
         length (filter (\<lambda>i. field_id i = v \<and> is_primary i) ?imgs1) +
           (if f = v then 1 else 0)"
    using count_after_promote [OF d1 t1, of v] assms(3) by simp
  have ne: "filter (\<lambda>i. field_id i = f) imgs \<noteq> []"
    using assms(2,3) by (auto simp: filter_empty_conv)
  show ?thesis
  proof (cases "v = f")
    case True
    with cnt ne show ?thesis
      by (simp add: one_primary_def update_primary_venue_empty cleared_venue)
  next
    case False
    with cnt assms(4) show ?thesis
      by (simp add: one_primary_def update_primary_venue_empty cleared_other_venue)
  qed
qed

lemma one_primary_delete:
  assumes "distinct (map i_id imgs)" and "t \<in> set imgs" and "\<And>v. one_primary imgs v"
  shows "one_primary
           (if is_primary t then
              (case sort_key uploaded_at
                      (filter (\<lambda>i. field_id i = field_id t) (delete_image_row (i_id t) imgs)) of
                 [] \<Rightarrow> delete_image_row (i_id t) imgs
               | nextPrimary # _ \<Rightarrow>
                   update_primary (\<lambda>i. i_id i = i_id nextPrimary) True
                     (delete_image_row (i_id t) imgs))
            else delete_image_row (i_id t) imgs) v"
proof -
  let ?rest = "delete_image_row (i_id t) imgs"
  let ?f = "field_id t"
  note del = count_after_delete [OF assms(1,2)]
  have dist: "distinct (map i_id ?rest)"
    using assms(1) by (simp add: delete_image_row_def distinct_ids_filter)
  have prim: "length (filter (\<lambda>i. field_id i = v \<and> is_primary i) imgs) =
      length (filter (\<lambda>i. field_id i = v \<and> is_primary i) ?rest) +
        (if ?f = v \<and> is_primary t then 1 else 0)" for v
    using del [of "\<lambda>i. field_id i = v \<and> is_primary i"] by simp
  have all: "length (filter (\<lambda>i. field_id i = v) imgs) =
      length (filter (\<lambda>i. field_id i = v) ?rest) + (if ?f = v then 1 else 0)" for v
    using del [of "\<lambda>i. field_id i = v"] by simp
  have here: "filter (\<lambda>i. field_id i = ?f) imgs \<noteq> []"
    using assms(2) by (auto simp: filter_empty_conv)
  have emp_eq: "(filter (\<lambda>i. field_id i = v) ?rest = []) = (filter (\<lambda>i. field_id i = v) imgs = [])"
    if "v \<noteq> ?f" for v
  proof -
    from all [of v] that
    have "length (filter (\<lambda>i. field_id i = v) imgs) = length (filter (\<lambda>i. field_id i = v) ?rest)"
      by simp
    then show ?thesis by (metis length_0_conv)
  qed
  have other: "one_primary ?rest v" if "v \<noteq> ?f" for v
    using prim [of v] assms(3) [of v] emp_eq [OF that] that by (simp add: one_primary_def)
  show ?thesis
  proof (cases "is_primary t")
    case False
    have "one_primary ?rest v"
    proof (cases "v = ?f")
      case True
      from assms(3) [of v] here True
      have "length (filter (\<lambda>i. field_id i = v \<and> is_primary i) imgs) = 1"
        by (simp add: one_primary_def)
      with prim [of v] False have one: "length (filter (\<lambda>i. field_id i = v \<and> is_primary i) ?rest) = 1"
        by simp
      then have "filter (\<lambda>i. field_id i = v \<and> is_primary i) ?rest \<noteq> []" by auto
      then have "filter (\<lambda>i. field_id i = v) ?rest \<noteq> []"
        by (auto simp: filter_empty_conv)
      with one show ?thesis by (simp add: one_primary_def)
    next
      case False
      then show ?thesis by (rule other)
    qed
    with False show ?thesis by simp
  next
    case True
    from assms(3) [of ?f] here
    have "length (filter (\<lambda>i. field_id i = ?f \<and> is_primary i) imgs) = 1"
      by (simp add: one_primary_def)
    with prim [of ?f] True
    have none: "filter (\<lambda>i. field_id i = ?f \<and> is_primary i) ?rest = []" by simp
    show ?thesis
    proof (cases "sort_key uploaded_at (filter (\<lambda>i. field_id i = ?f) ?rest)")
      case Nil
      then have "set (filter (\<lambda>i. field_id i = ?f) ?rest) = {}"
        using set_sort [of uploaded_at "filter (\<lambda>i. field_id i = ?f) ?rest"] by simp
      then have emp: "filter (\<lambda>i. field_id i = ?f) ?rest = []" by simp
      have "one_primary ?rest v"
      proof (cases "v = ?f")
        case True
        with emp none show ?thesis by (simp add: one_primary_def)
      next
        case False
        then show ?thesis by (rule other)
      qed
      with True Nil show ?thesis by simp
    next
      case (Cons np zs)
      from sort_key_head_min [OF Cons] have np: "np \<in> set ?rest" "field_id np = ?f" by auto
      with none have np_not: "\<not> is_primary np" by (auto simp: filter_empty_conv)
      have cnt: "length (filter (\<lambda>i. field_id i = v \<and> is_primary i)
             (update_primary (\<lambda>i. i_id i = i_id np) True ?rest)) =
           length (filter (\<lambda>i. field_id i = v \<and> is_primary i) ?rest) +
             (if ?f = v then 1 else 0)"
        using count_after_promote [OF dist np(1), of v] np(2) np_not by simp
      have "one_primary (update_primary (\<lambda>i. i_id i = i_id np) True ?rest) v"
      proof (cases "v = ?f")
        case True
        have "filter (\<lambda>i. field_id i = ?f) ?rest \<noteq> []"
          using np by (auto simp: filter_empty_conv)
        with True cnt none show ?thesis
          by (simp add: one_primary_def update_primary_venue_empty)
      next
        case False
        with cnt other [OF False] show ?thesis
          by (simp add: one_primary_def update_primary_venue_empty)
      qed
      with True Cons show ?thesis by simp
    qed
  qed
qed


lemma images_ok_iff:
  "images_ok d =
     (distinct (map i_id (field_images d)) \<and>
      (\<forall>i\<in>set (field_images d). i_id i < next_image_id d) \<and>
      (\<forall>v. one_primary (field_images d) v))"
  by (simp add: images_ok_def primary_invariant_iff list_all_iff)

lemma images_ok_upload:
  assumes "images_ok d"
  shows "images_ok (snd (upload_image d now userId fieldId file))"
proof (cases "file")
  case None
  with assms show ?thesis by (simp add: upload_image_def)
next
  case (Some filename)
  show ?thesis
  proof (cases "filter (\<lambda>v. v_id v = fieldId) (sports_venues d) = []")
    case True
    with Some assms show ?thesis
      by (simp add: upload_image_def Let_def images_ok_iff)
  next
    case False
    from assms have fresh: "next_image_id d \<notin> i_id ` set (field_images d)"
      by (auto simp: images_ok_iff)
    from assms have "\<forall>i\<in>set (field_images d). i_id i < Suc (next_image_id d)"
      by (auto simp: images_ok_iff less_Suc_eq)
    with False Some assms fresh show ?thesis
      by (simp add: upload_image_def Let_def images_ok_iff one_primary_attach)
  qed
qed

lemma images_ok_set_primary:
  assumes "images_ok d"
  shows "images_ok (snd (set_primary d userId fieldId imageId))"
proof (cases "filter (\<lambda>i. i_id i = imageId \<and> field_id i = fieldId) (field_images d) = []")
  case True
  with assms show ?thesis by (simp add: set_primary_def)
next
  case False
  then obtain t where t: "t \<in> set (field_images d)" "i_id t = imageId" "field_id t = fieldId"
    by (auto simp: filter_empty_conv)
  have ids: "map i_id (update_primary (\<lambda>i. i_id i = imageId) True
               (update_primary (\<lambda>i. field_id i = fieldId) False (field_images d))) =
             map i_id (field_images d)"
    by (simp add: update_primary_ids)
  have "one_primary (update_primary (\<lambda>i. i_id i = imageId) True
          (update_primary (\<lambda>i. field_id i = fieldId) False (field_images d))) v" for v
    using one_primary_set_primary [OF _ t(1,3), of v] assms t(2) by (simp add: images_ok_iff)
  moreover have "\<forall>i\<in>set (update_primary (\<lambda>i. i_id i = imageId) True
          (update_primary (\<lambda>i. field_id i = fieldId) False (field_images d))).
          i_id i < next_image_id d"
    using assms by (auto simp: images_ok_iff update_primary_def)
  ultimately show ?thesis
    using False assms ids by (simp add: set_primary_def Let_def images_ok_iff)
qed

lemma images_ok_delete:
  assumes "images_ok d" and "pg_integer fieldId"
    and "list_all (\<lambda>i. i_id i = imageId \<longrightarrow> field_id i = fieldId) (field_images d)"
  shows "images_ok (snd (delete_image d userId fieldId imageId))"
proof (cases "pg_integer imageId")
  case False
  with assms(1) show ?thesis by (simp add: delete_image_def)
next
  case rng: True
  show ?thesis
  proof (cases "filter (\<lambda>i. i_id i = imageId) (field_images d)")
    case Nil
    with assms(1) rng show ?thesis by (simp add: delete_image_def)
  next
    case (Cons img rest)
    then have "img \<in> set (filter (\<lambda>i. i_id i = imageId) (field_images d))" by simp
    then have img: "img \<in> set (field_images d)" "i_id img = imageId" by auto
    with assms(3) have f: "fieldId = field_id img" by (auto simp: list_all_iff)
    from assms(1) have dist: "distinct (map i_id (field_images d))" by (simp add: images_ok_iff)
    from rng img(2) have rng': "pg_integer (i_id img)" by simp
    from assms(2) f have frng: "pg_integer (field_id img)" by simp
    have "images_ok (snd (delete_image d userId (field_id img) (i_id img)))"
    proof (cases "uploaded_by img = userId")
      case False
      with Cons img(2) assms(1) rng show ?thesis by (simp add: delete_image_def)
    next
      case True
      note res = delete_image_result [OF img(1) dist True rng', of "field_id img"]
      let ?imgs' = "field_images (snd (delete_image d userId (field_id img) (i_id img)))"
      have one: "one_primary ?imgs' v" for v
        using one_primary_delete [OF dist img(1), of v] assms(1) frng
        by (simp add: res(2) images_ok_iff)
      have idmap: "map i_id ?imgs' = map i_id (delete_image_row (i_id img) (field_images d))"
        by (simp add: res(2) update_primary_ids split: list.splits)
      have ids: "set (map i_id ?imgs') \<subseteq> set (map i_id (field_images d))"
        by (auto simp: idmap delete_image_row_def)
      have dist': "distinct (map i_id ?imgs')"
        using dist by (simp add: idmap delete_image_row_def distinct_ids_filter)
      have "\<forall>i\<in>set ?imgs'. i_id i < next_image_id d"
        using ids assms(1) by (auto simp: images_ok_iff)
      with one dist' res(3) show ?thesis by (simp add: images_ok_iff)
    qed
    with img(2) f show ?thesis by simp
  qed
qed

lemma images_ok_apply_op:
  "images_ok d \<Longrightarrow> path_matches d x \<Longrightarrow> images_ok (apply_op d x)"
  by (cases x) (simp_all add: images_ok_upload images_ok_set_primary images_ok_delete)

lemma images_ok_run:
  "images_ok d \<Longrightarrow> paths_match d xs \<Longrightarrow> images_ok (foldl apply_op d xs)"
  by (induction xs arbitrary: d) (simp_all add: images_ok_apply_op)

lemma images_ok_no_images:
  "field_images d = [] \<Longrightarrow> images_ok d"
  by (simp add: images_ok_iff one_primary_def)

lemma primary_invariant_when_paths_match:
  assumes "field_images d = []" and "paths_match d xs"
  shows "primary_invariant (foldl apply_op d xs) v"
  using images_ok_run [OF images_ok_no_images [OF assms(1)] assms(2)]
  by (simp add: images_ok_def)

text \<open>
  When the path names the venue of the removed primary image (both ids within
  the range of the column) and images of that venue remain, exactly one of them
  is primary afterwards, and none of them was uploaded earlier.
\<close>

lemma update_primary_member:
  "i \<in> set (update_primary P b xs) \<Longrightarrow>
   \<exists>x\<in>set xs. field_id x = field_id i \<and> uploaded_at x = uploaded_at i \<and> i_id x = i_id i"
  by (auto simp: update_primary_def split: if_splits)

lemma promoted_is_oldest:
  assumes "img \<in> set (field_images d)" and "distinct (map i_id (field_images d))"
    and "uploaded_by img = userId" and "is_primary img"
    and "i \<in> set (field_images (snd (delete_image d userId fieldId (i_id img))))"
    and "field_id i = fieldId"
    and "pg_integer (i_id img)" and "pg_integer fieldId"
  shows "\<exists>p\<in>set (field_images (snd (delete_image d userId fieldId (i_id img)))).
           field_id p = fieldId \<and> is_primary p \<and> uploaded_at p \<le> uploaded_at i"
proof -
  let ?rest = "delete_image_row (i_id img) (field_images d)"
  note res = delete_image_result(2) [OF assms(1-3) assms(7), of fieldId]
  show ?thesis
  proof (cases "sort_key uploaded_at (filter (\<lambda>i. field_id i = fieldId) ?rest)")
    case Nil
    then have "set (filter (\<lambda>i. field_id i = fieldId) ?rest) = {}"
      using set_sort [of uploaded_at "filter (\<lambda>i. field_id i = fieldId) ?rest"] by simp
    moreover from assms(4,5,8) Nil have "i \<in> set ?rest" by (simp add: res)
    ultimately show ?thesis using assms(6) by auto
  next
    case (Cons np zs)
    from assms(4,5,8) Cons
    have "i \<in> set (update_primary (\<lambda>i. i_id i = i_id np) True ?rest)" by (simp add: res)
    then obtain x where x: "x \<in> set ?rest" "field_id x = field_id i" "uploaded_at x = uploaded_at i"
      using update_primary_member by blast
    with sort_key_head_min [OF Cons] assms(6)
    have np: "np \<in> set ?rest" "field_id np = fieldId" "uploaded_at np \<le> uploaded_at i" by auto
    have "np\<lparr>is_primary := True\<rparr> \<in> set (update_primary (\<lambda>i. i_id i = i_id np) True ?rest)"
      using np(1) by (force simp: update_primary_def)
    with assms(4,8) Cons np show ?thesis
      by (intro bexI [of _ "np\<lparr>is_primary := True\<rparr>"]) (simp_all add: res)
  qed
qed

lemma remove_primary_promotes_oldest:
  assumes "images_ok d" and "img \<in> set (field_images d)" and "uploaded_by img = userId"
    and "is_primary img"
    and "venue_images (snd (delete_image d userId (field_id img) (i_id img))) (field_id img) \<noteq> []"
    and "pg_integer (i_id img)" and "pg_integer (field_id img)"
  shows "\<exists>p. filter is_primary
                (venue_images (snd (delete_image d userId (field_id img) (i_id img)))
                   (field_id img)) = [p] \<and>
             (\<forall>i\<in>set (venue_images (snd (delete_image d userId (field_id img) (i_id img)))
                         (field_id img)). uploaded_at p \<le> uploaded_at i)"
proof -
  let ?d' = "snd (delete_image d userId (field_id img) (i_id img))"
  let ?f = "field_id img"
  from assms(1) have dist: "distinct (map i_id (field_images d))" by (simp add: images_ok_def)
  have "list_all (\<lambda>i. i_id i = i_id img \<longrightarrow> field_id i = ?f) (field_images d)"
    using same_id_same_row [OF dist _ assms(2)] by (auto simp: list_all_iff)
  with assms(1,7) have "images_ok ?d'" by (rule images_ok_delete)
  then have "primary_invariant ?d' ?f" by (simp add: images_ok_def)
  with assms(5) have "length (filter is_primary (venue_images ?d' ?f)) = 1"
    by (simp add: primary_invariant_def)
  then obtain p where p: "filter is_primary (venue_images ?d' ?f) = [p]"
    by (auto simp: length_Suc_conv)
  have "uploaded_at p \<le> uploaded_at i" if "i \<in> set (venue_images ?d' ?f)" for i
  proof -
    from that have "i \<in> set (field_images ?d')" "field_id i = ?f"
      by (auto simp: venue_images_def)
    from promoted_is_oldest [OF assms(2) dist assms(3,4) this assms(6,7)]
    obtain q where q: "q \<in> set (field_images ?d')" "field_id q = ?f" "is_primary q"
      "uploaded_at q \<le> uploaded_at i" by blast
    then have "q \<in> set (filter is_primary (venue_images ?d' ?f))"
      by (simp add: venue_images_def)
    with p have "q = p" by simp
    with q(4) show ?thesis by simp
  qed
  with p show ?thesis by blast
qed

section \<open>Properties of the report manager\<close>

text \<open>
  C8.  Whether the notifier returns or throws, filing a report gives the same
  answer to the caller and the same stored state; in particular a filing that
  succeeds with a working notifier succeeds with the same stored report when
  the notifier throws.  Only the log differs.
\<close>

theorem notifier_failure_isolated:
  "fst (create_report send d now userId fieldId rtype descr) =
     fst (create_report send' d now userId fieldId rtype descr) \<and>
   fst (snd (create_report send d now userId fieldId rtype descr)) =
     fst (snd (create_report send' d now userId fieldId rtype descr))"
  by (simp add: create_report_def Let_def split: list.splits)

text \<open>
  A filing that succeeds although the notifier throws: the report is stored and
  returned, and the failure is in the log only.
\<close>

lemma notifier_failure_example:
  "create_report (\<lambda>_. False) demo_db 30 2 1 (Some ''altro'') None =
     (Inr \<lparr>c_message = ''Segnalazione inviata con successo'',
           c_report = \<lparr>r_id = 1, venue_id = 1, reported_by_user_id = 2, report_type = ''altro'',
                       description = None, status = ''pending'', r_created_at = 30\<rparr>\<rparr>,
      demo_db\<lparr>venue_reports :=
                 [\<lparr>r_id = 1, venue_id = 1, reported_by_user_id = 2, report_type = ''altro'',
                   description = None, status = ''pending'', r_created_at = 30\<rparr>],
              next_report_id := 2\<rparr>,
      [Log_error ''Error sending email notification:''])"
  by (simp add: create_report_def validate_report_def report_types_def demo_db_def Let_def)

text \<open>
  C7, as the code has it.  The validator accepts a report exactly when the report
  type is one of \<^verbatim>\<open>non_esiste\<close>, \<^verbatim>\<open>info_errate\<close>, \<^verbatim>\<open>altro\<close> and the
  description is absent or has between 10 and 500 characters; in every other
  case filing answers with the validation errors and changes nothing.
\<close>

theorem report_validation:
  "(validate_report rtype descr = []) =
     ((\<exists>t. rtype = Some t \<and> t \<in> {''non_esiste'', ''info_errate'', ''altro''}) \<and>
      (\<forall>s. descr = Some s \<longrightarrow> 10 \<le> length s \<and> length s \<le> 500)) \<and>
   (validate_report rtype descr \<noteq> [] \<longrightarrow>
      create_report send d now userId fieldId rtype descr =
        (Inl (Invalid (validate_report rtype descr)), d, []))"
  by (auto simp: validate_report_def report_types_def create_report_def Let_def
           split: option.splits)

theorem report_validation_witness:
  "validate_report (Some ''bogus'') (Some ''short'') =
     [''Tipo di segnalazione non valido'', ''Descrizione deve essere tra 10 e 500 caratteri''] \<and>
   create_report (\<lambda>_. True) demo_db 30 2 1 (Some ''bogus'') (Some ''short'') =
     (Inl (Invalid [''Tipo di segnalazione non valido'',
                    ''Descrizione deve essere tra 10 e 500 caratteri'']), demo_db, [])"
  using report_validation [of "Some ''bogus''" "Some ''short''" "\<lambda>_. True" demo_db 30 2 1]
  by (simp add: validate_report_def report_types_def)

text \<open>
  The enumeration that C7 names is not the one the validator checks: the code
  accepts \<^verbatim>\<open>altro\<close>, which C7's enumeration lacks, and refuses \<^verbatim>\<open>other\<close>,
  which C7's enumeration has.
\<close>

theorem report_enumeration_counterexample:
  "''altro'' \<notin> set spec_report_types \<and>
   fst (create_report (\<lambda>_. True) demo_db 30 2 1 (Some ''altro'') None) =
     Inr \<lparr>c_message = ''Segnalazione inviata con successo'',
          c_report = \<lparr>r_id = 1, venue_id = 1, reported_by_user_id = 2, report_type = ''altro'',
                      description = None, status = ''pending'', r_created_at = 30\<rparr>\<rparr> \<and>
   ''other'' \<in> set spec_report_types \<and>
   create_report (\<lambda>_. True) demo_db 30 2 1 (Some ''other'') None =
     (Inl (Invalid [''Tipo di segnalazione non valido'']), demo_db, [])"
  by (simp add: spec_report_types_def create_report_def validate_report_def report_types_def
        demo_db_def Let_def)

lemma reported_db_reports:
  "venue_reports reported_db =
     [\<lparr>r_id = 1, venue_id = 1, reported_by_user_id = 2, report_type = ''info_errate'',
       description = None, status = ''pending'', r_created_at = 30\<rparr>]"
  by (simp add: reported_db_def create_report_def validate_report_def report_types_def
        demo_db_def Let_def)

text \<open>
  C2, as the code has it.  When the user has already reported the venue (and the
  venue exists, as the foreign key of a report guarantees), a second filing fails
  and changes nothing: with the duplicate-report answer when its report type and
  description pass validation, and with the validation errors otherwise, since
  validation runs first.
\<close>

theorem duplicate_report_rejected:
  assumes "\<exists>r \<in> set (venue_reports d). venue_id r = fieldId \<and> reported_by_user_id r = userId"
    and "\<exists>v \<in> set (sports_venues d). v_id v = fieldId"
  shows "create_report send d now userId fieldId rtype descr =
     (if validate_report rtype descr = [] then (Inl (Err 400 already_reported), d, [])
      else (Inl (Invalid (validate_report rtype descr)), d, []))"
proof -
  from assms(1) have r: "filter (\<lambda>r. venue_id r = fieldId \<and> reported_by_user_id r = userId)
      (venue_reports d) \<noteq> []"
    by (auto simp: filter_empty_conv)
  from assms(2) have "filter (\<lambda>f. v_id f = fieldId) (sports_venues d) \<noteq> []"
    by (auto simp: filter_empty_conv)
  then obtain f fs where "filter (\<lambda>f. v_id f = fieldId) (sports_venues d) = f # fs"
    by (cases "filter (\<lambda>f. v_id f = fieldId) (sports_venues d)") auto
  with r show ?thesis
    by (simp add: create_report_def Let_def)
qed


theorem duplicate_report_rejected_witness:
  "create_report (\<lambda>_. True) reported_db 40 2 1 (Some ''altro'') (Some ''Il campo non esiste'') =
     (Inl (Err 400 already_reported), reported_db, [])"
  using duplicate_report_rejected [where d = reported_db and fieldId = 1 and userId = 2
      and send = "\<lambda>_. True" and now = 40 and rtype = "Some ''altro''"
      and descr = "Some ''Il campo non esiste''"]
  by (simp add: reported_db_reports validate_report_def report_types_def)
    (simp add: reported_db_def create_report_def validate_report_def report_types_def
        demo_db_def Let_def)

text \<open>
  A second filing whose description is too short is refused by the validator,
  not as a duplicate.
\<close>

theorem duplicate_report_counterexample:
  "map (\<lambda>r. (venue_id r, reported_by_user_id r)) (venue_reports reported_db) = [(1, 2)] \<and>
   create_report (\<lambda>_. True) reported_db 40 2 1 (Some ''altro'') (Some ''chiuso'') =
     (Inl (Invalid [''Descrizione deve essere tra 10 e 500 caratteri'']), reported_db, []) \<and>
   fst (create_report (\<lambda>_. True) reported_db 40 2 1 (Some ''altro'') (Some ''chiuso'')) \<noteq>
     Inl (Err 400 already_reported)"
  by (simp add: reported_db_reports create_report_def validate_report_def report_types_def Let_def)

section \<open>Properties of the venue repository\<close>

lemma venue_check_Nil:
  "(venue_check own fieldId vs ffs = []) =
   ((\<forall>v\<in>set vs. v_id v = fieldId \<longrightarrow> \<not> own (v_added_by_user_id v)) \<and>
    (\<forall>f\<in>set ffs. ff_id f = fieldId \<longrightarrow> \<not> own (ff_added_by_user_id f)))"
  by (auto simp: venue_check_def filter_empty_conv)

text \<open>
  C5, as the code has it.  For a caller who is not an admin and owns no venue of
  that id, and when the relation \<^verbatim>\<open>football_fields\<close> exists, deleting answers
  with status 404 and changes nothing, both for a venue of someone else and for an
  id that no venue has and that lies within the range of the id column.  The two
  answers have the same status and different messages.  For an id beyond the
  range of the id column the lookup itself fails: the answer is status 500, and
  nothing changes.
\<close>

theorem delete_venue_same_status:
  assumes "football_fields d = Some ffs"
    and "pg_integer userId" and "\<not> caller_is_admin d userId"
    and "pg_integer fieldId"
    and "\<forall>v\<in>set (sports_venues d). v_id v = fieldId \<longrightarrow> v_added_by_user_id v \<noteq> Some userId"
    and "\<forall>f\<in>set ffs. ff_id f = fieldId \<longrightarrow> ff_added_by_user_id f \<noteq> Some userId"
    and "\<forall>v\<in>set (sports_venues d). v_id v \<noteq> absentId"
  shows "delete_venue resolve d userId fieldId =
           (Inl (Err 404 (if filter (\<lambda>v. v_id v = fieldId) (sports_venues d) = []
                          then ''Venue not found''
                          else ''Venue not found or access denied'')), d) \<and>
         delete_venue resolve d userId absentId =
           (if pg_integer absentId then (Inl (Err 404 ''Venue not found''), d)
            else (Inl (Err 500 ''Server error''), d))"
proof -
  have "venue_check (\<lambda>a. a = Some userId) fieldId (sports_venues d) ffs = []"
    using assms(5,6) by (simp add: venue_check_Nil)
  moreover have "filter (\<lambda>v. v_id v = absentId) (sports_venues d) = []"
    using assms(7) by (simp add: filter_empty_conv)
  ultimately show ?thesis
    using assms(1-4) by (simp add: delete_venue_def Let_def)
qed

theorem delete_venue_same_status_witness:
  "delete_venue demo_resolve demo_db 3 4 =
     (Inl (Err 404 ''Venue not found or access denied''), demo_db) \<and>
   delete_venue demo_resolve demo_db 3 99 = (Inl (Err 404 ''Venue not found''), demo_db) \<and>
   delete_venue demo_resolve demo_db 3 2147483648 = (Inl (Err 500 ''Server error''), demo_db)"
  using delete_venue_same_status [where d = demo_db and ffs = "[]" and userId = 3
      and fieldId = 4 and absentId = 99 and resolve = demo_resolve]
    delete_venue_same_status [where d = demo_db and ffs = "[]" and userId = 3
      and fieldId = 4 and absentId = 2147483648 and resolve = demo_resolve]
  by (simp add: caller_is_admin_def pg_integer_def) (simp add: demo_db_def)

text \<open>
  The two answers can be told apart: the message for a venue of someone else is
  not the message for an id that no venue has.  Where the relation
  \<^verbatim>\<open>football_fields\<close> does not exist, the status differs as well: 500 for
  a venue of someone else, 404 for an id that no venue has.  And an id that no
  venue has is answered with status 500 when it is beyond the range of the id
  column.
\<close>

theorem delete_venue_counterexample:
  "fst (delete_venue demo_resolve demo_db 3 4) = Inl (Err 404 ''Venue not found or access denied'') \<and>
   fst (delete_venue demo_resolve demo_db 3 99) = Inl (Err 404 ''Venue not found'') \<and>
   fst (delete_venue demo_resolve demo_db 3 4) \<noteq> fst (delete_venue demo_resolve demo_db 3 99) \<and>
   fst (delete_venue demo_resolve no_legacy_db 3 4) = Inl (Err 500 ''Server error'') \<and>
   fst (delete_venue demo_resolve no_legacy_db 3 99) = Inl (Err 404 ''Venue not found'') \<and>
   fst (delete_venue demo_resolve demo_db 3 2147483648) = Inl (Err 500 ''Server error'')"
  by (simp add: delete_venue_def caller_is_admin_def venue_check_def no_legacy_db_def
        demo_db_def pg_integer_def Let_def)





































end
